theory Spec2Isabelle
  imports Complex_Main
begin

unbundle bit_operations_syntax

section \<open>JavaScript strings\<close>

text \<open>
  A JavaScript string is a sequence of UTF-16 code units; \<open>charCodeAt\<close> reads one of
  them and \<open>length\<close> counts them. A string is modelled as the list of its code units,
  each a natural number (a real string only holds units below 65536; every theorem below
  is proved for all lists, hence for all strings). \<open>lit\<close> turns an ASCII literal into
  that form. The argument \<open>data\<close> of \<open>parsePacket\<close> stands for \<open>data.toString()\<close>, the
  decoded text of the arrival.
\<close>

type_synonym jsstring = "nat list"

definition lit :: "string \<Rightarrow> jsstring" where
  "lit s = map of_char s"

text \<open>The protocol constants of the server (\<open>PROTOCOL_START\<close>, \<open>PROTOCOL_END\<close>).\<close>

definition PROTOCOL_START :: jsstring where
  "PROTOCOL_START = [40]"

definition PROTOCOL_END :: jsstring where
  "PROTOCOL_END = [41]"

definition COMMA :: nat where
  "COMMA = 44"

definition DOT :: nat where
  "DOT = 46"

text \<open>
  \<open>String.prototype.trim\<close> removes WhiteSpace and LineTerminator code points from both
  ends: TAB, LF, VT, FF, CR, SPACE, NBSP, U+1680, U+2000 to U+200A, U+2028, U+2029,
  U+202F, U+205F, U+3000 and U+FEFF.
\<close>

definition is_whitespace :: "nat \<Rightarrow> bool" where
  "is_whitespace c \<longleftrightarrow>
     (9 \<le> c \<and> c \<le> 13) \<or> c = 32 \<or> c = 160 \<or> c = 5760 \<or> (8192 \<le> c \<and> c \<le> 8202) \<or>
     c = 8232 \<or> c = 8233 \<or> c = 8239 \<or> c = 8287 \<or> c = 12288 \<or> c = 65279"

definition trimStart :: "jsstring \<Rightarrow> jsstring" where
  "trimStart s = dropWhile is_whitespace s"

definition trim :: "jsstring \<Rightarrow> jsstring" where
  "trim s = rev (dropWhile is_whitespace (rev (dropWhile is_whitespace s)))"

definition startsWith :: "jsstring \<Rightarrow> jsstring \<Rightarrow> bool" where
  "startsWith s p \<longleftrightarrow> take (length p) s = p"

definition endsWith :: "jsstring \<Rightarrow> jsstring \<Rightarrow> bool" where
  "endsWith s p \<longleftrightarrow> length p \<le> length s \<and> drop (length s - length p) s = p"

text \<open>
  \<open>slice(start, end)\<close> of strings and arrays: a negative index counts from the end, and
  both indices are clamped to the range of the sequence. \<open>slice_from\<close> is the call with
  one argument.
\<close>

definition slice_index :: "nat \<Rightarrow> int \<Rightarrow> nat" where
  "slice_index len i = (if i < 0 then nat (max 0 (int len + i)) else min (nat i) len)"

definition slice :: "'a list \<Rightarrow> int \<Rightarrow> int \<Rightarrow> 'a list" where
  "slice xs start end =
     (let from = slice_index (length xs) start; to = slice_index (length xs) end
      in take (to - from) (drop from xs))"

definition slice_from :: "'a list \<Rightarrow> int \<Rightarrow> 'a list" where
  "slice_from xs start = drop (slice_index (length xs) start) xs"

text \<open>
  \<open>substring(start, end)\<close>: a negative index is 0, an index past the end is the length,
  and the two are swapped when the first is the larger. \<open>substring_from\<close> is the call
  with one argument.
\<close>

definition substring_index :: "nat \<Rightarrow> int \<Rightarrow> nat" where
  "substring_index len i = min (nat (max 0 i)) len"

definition substring :: "jsstring \<Rightarrow> int \<Rightarrow> int \<Rightarrow> jsstring" where
  "substring s start end =
     (let a = substring_index (length s) start; b = substring_index (length s) end
      in take (max a b - min a b) (drop (min a b) s))"

definition substring_from :: "jsstring \<Rightarrow> int \<Rightarrow> jsstring" where
  "substring_from s start = drop (substring_index (length s) start) s"

text \<open>\<open>indexOf\<close> and \<open>lastIndexOf\<close> of a one-character string: \<open>-1\<close> when it is absent.\<close>

fun indexOf :: "jsstring \<Rightarrow> nat \<Rightarrow> int" where
  "indexOf [] c = -1"
| "indexOf (x # xs) c =
     (if x = c then 0 else (let i = indexOf xs c in if i < 0 then -1 else i + 1))"

fun lastIndexOf :: "jsstring \<Rightarrow> nat \<Rightarrow> int" where
  "lastIndexOf [] c = -1"
| "lastIndexOf (x # xs) c =
     (let i = lastIndexOf xs c in if 0 \<le> i then i + 1 else if x = c then 0 else -1)"

text \<open>
  \<open>split(',')\<close>: the pieces between the separators, in order; a string without a
  separator (the empty string too) gives one piece.
\<close>

fun split :: "jsstring \<Rightarrow> nat \<Rightarrow> jsstring list" where
  "split [] c = [[]]"
| "split (x # xs) c =
     (if x = c then [] # split xs c
      else (let r = split xs c in (x # hd r) # tl r))"

text \<open>Reading an array element: \<open>undefined\<close> (here \<open>None\<close>) past the end.\<close>

definition elem_at :: "'a list \<Rightarrow> nat \<Rightarrow> 'a option" where
  "elem_at xs i = (if i < length xs then Some (xs ! i) else None)"

section \<open>The checksum\<close>

text \<open>
  \<open>calculateChecksum\<close> adds the code units in a loop, masks the sum with \<open>0xFFFF\<close> and
  prints it in base 16, upper case, padded on the left with \<open>'0'\<close> to four characters.
  The sum of a string a JavaScript engine can hold is far below \<open>2^53\<close>, so the
  floating-point additions of the source are exact and the sum is a natural number.
\<close>

definition hex_digit :: "nat \<Rightarrow> nat" where
  "hex_digit d = (if d < 10 then 48 + d else 87 + d)"

function toString16 :: "nat \<Rightarrow> jsstring" where
  "toString16 n = (if n < 16 then [hex_digit n] else toString16 (n div 16) @ [hex_digit (n mod 16)])"
  by pat_completeness auto
termination
  by (relation "measure id") auto

declare toString16.simps [simp del]

text \<open>\<open>toUpperCase\<close>, on the ASCII letters (the only letters \<open>toString(16)\<close> prints).\<close>

definition toUpperCase :: "jsstring \<Rightarrow> jsstring" where
  "toUpperCase s = map (\<lambda>c. if 97 \<le> c \<and> c \<le> 122 then c - 32 else c) s"

definition padStart :: "jsstring \<Rightarrow> nat \<Rightarrow> nat \<Rightarrow> jsstring" where
  "padStart s n c = replicate (n - length s) c @ s"

definition char_code_sum :: "jsstring \<Rightarrow> nat" where
  "char_code_sum s = foldl (+) 0 s"

definition calculateChecksum :: "jsstring \<Rightarrow> jsstring" where
  "calculateChecksum s = padStart (toUpperCase (toString16 (char_code_sum s AND 0xFFFF))) 4 48"

text \<open>The upper-case hexadecimal digits, and the number a string of them denotes.\<close>

definition is_upper_hex :: "nat \<Rightarrow> bool" where
  "is_upper_hex c \<longleftrightarrow> (48 \<le> c \<and> c \<le> 57) \<or> (65 \<le> c \<and> c \<le> 70)"

definition upper_hex_value :: "nat \<Rightarrow> nat" where
  "upper_hex_value c = (if c \<le> 57 then c - 48 else c - 55)"

definition upper_hex_digit :: "nat \<Rightarrow> nat" where
  "upper_hex_digit d = (if d < 10 then 48 + d else 55 + d)"

definition hex_value :: "jsstring \<Rightarrow> nat" where
  "hex_value s = foldl (\<lambda>acc c. 16 * acc + upper_hex_value c) 0 s"

section \<open>Numbers\<close>

text \<open>
  A JavaScript number is an IEEE 754 binary64 value: \<open>NaN\<close>, an infinity, or a finite
  value with a sign (so that there are two zeros). \<open>Finite s m\<close> is the value of
  magnitude \<open>m \<ge> 0\<close> and sign \<open>s\<close> (\<open>True\<close> for negative); the magnitude is kept as an
  exact rational, and every operation rounds its exact result to the nearest binary64
  value, ties to even, as the standard prescribes.
\<close>

datatype jsnum = NaN | Infinity bool | Finite bool rat


definition pow2 :: "int \<Rightarrow> rat" where
  "pow2 e = (if 0 \<le> e then 2 ^ nat e else 1 / 2 ^ nat (- e))"

definition pow10 :: "int \<Rightarrow> rat" where
  "pow10 e = (if 0 \<le> e then 10 ^ nat e else 1 / 10 ^ nat (- e))"

function bit_length :: "int \<Rightarrow> int" where
  "bit_length n = (if n \<le> 0 then 0 else 1 + bit_length (n div 2))"
  by pat_completeness auto
termination
  by (relation "measure nat") auto

declare bit_length.simps [simp del]

text \<open>For \<open>a > 0\<close>, the exponent \<open>e\<close> with \<open>2^e \<le> a < 2^(e+1)\<close>.\<close>

definition floor_log2 :: "rat \<Rightarrow> int" where
  "floor_log2 a =
     (let (n, d) = quotient_of a;
          e = bit_length n - bit_length d
      in if pow2 e \<le> a then e else e - 1)"

definition round_half_even :: "rat \<Rightarrow> int" where
  "round_half_even q =
     (let f = \<lfloor>q\<rfloor>; r = q - of_int f
      in if r < 1 / 2 then f else if 1 / 2 < r then f + 1 else if even f then f else f + 1)"

text \<open>
  Rounding a sign and an exact magnitude to binary64: 53 significant bits, the least
  exponent \<open>-1022\<close> (below it the subnormal numbers, down to zero), infinity from
  \<open>2^1024\<close> on.
\<close>

definition to_binary64 :: "bool \<Rightarrow> rat \<Rightarrow> jsnum" where
  "to_binary64 s a =
     (if a = 0 then Finite s 0
      else (let e = max (floor_log2 a) (- 1022);
                q = pow2 (e - 52);
                y = of_int (round_half_even (a / q)) * q
            in if pow2 1024 \<le> y then Infinity s else Finite s y))"

fun js_neg :: "jsnum \<Rightarrow> jsnum" where
  "js_neg NaN = NaN"
| "js_neg (Infinity s) = Infinity (\<not> s)"
| "js_neg (Finite s m) = Finite (\<not> s) m"

fun js_add :: "jsnum \<Rightarrow> jsnum \<Rightarrow> jsnum" where
  "js_add NaN y = NaN"
| "js_add x NaN = NaN"
| "js_add (Infinity s) (Infinity t) = (if s = t then Infinity s else NaN)"
| "js_add (Infinity s) (Finite t b) = Infinity s"
| "js_add (Finite s a) (Infinity t) = Infinity t"
| "js_add (Finite s a) (Finite t b) =
     (let v = (if s then - a else a) + (if t then - b else b)
      in if v = 0 then Finite (s \<and> t) 0 else to_binary64 (v < 0) \<bar>v\<bar>)"

fun js_div :: "jsnum \<Rightarrow> jsnum \<Rightarrow> jsnum" where
  "js_div NaN y = NaN"
| "js_div x NaN = NaN"
| "js_div (Infinity s) (Infinity t) = NaN"
| "js_div (Infinity s) (Finite t b) = Infinity (s \<noteq> t)"
| "js_div (Finite s a) (Infinity t) = Finite (s \<noteq> t) 0"
| "js_div (Finite s a) (Finite t b) =
     (if b = 0 then (if a = 0 then NaN else Infinity (s \<noteq> t))
      else to_binary64 (s \<noteq> t) (a / b))"

text \<open>The numbers that count as false in \<open>x || 0\<close>: \<open>NaN\<close> and the two zeros.\<close>

fun num_falsy :: "jsnum \<Rightarrow> bool" where
  "num_falsy NaN = True"
| "num_falsy (Infinity s) = False"
| "num_falsy (Finite s m) = (m = 0)"

definition num_or :: "jsnum \<Rightarrow> jsnum \<Rightarrow> jsnum" where
  "num_or x d = (if num_falsy x then d else x)"

definition js_zero :: jsnum where
  "js_zero = Finite False 0"

subsection \<open>\<open>parseFloat\<close> and \<open>parseInt\<close>\<close>

text \<open>
  Both built-ins turn their argument into a string first (\<open>undefined\<close>, the value of a
  missing array element, becomes the text \<open>undefined\<close>), skip leading white space and
  read the longest prefix that is a number; with no such prefix the result is \<open>NaN\<close>.
  \<open>parseFloat\<close> reads a signed decimal literal with an optional fraction and exponent,
  or \<open>Infinity\<close>. \<open>parseInt\<close> without a radix reads a signed integer, in base 16 after
  \<open>0x\<close> or \<open>0X\<close> and in base 10 otherwise.
\<close>

definition ToString :: "jsstring option \<Rightarrow> jsstring" where
  "ToString v = (case v of None \<Rightarrow> lit ''undefined'' | Some s \<Rightarrow> s)"

definition is_digit :: "nat \<Rightarrow> bool" where
  "is_digit c \<longleftrightarrow> 48 \<le> c \<and> c \<le> 57"

definition digits_value :: "jsstring \<Rightarrow> int" where
  "digits_value ds = foldl (\<lambda>acc c. 10 * acc + (int c - 48)) 0 ds"

definition parse_sign :: "jsstring \<Rightarrow> bool \<times> jsstring" where
  "parse_sign s =
     (case s of
        [] \<Rightarrow> (False, [])
      | c # r \<Rightarrow> if c = 45 then (True, r) else if c = 43 then (False, r) else (False, s))"

definition exponent_part :: "jsstring \<Rightarrow> int" where
  "exponent_part r =
     (case r of
        [] \<Rightarrow> 0
      | c # r' \<Rightarrow>
          if c = 101 \<or> c = 69 then
            (let (neg, r'') = parse_sign r'; ds = takeWhile is_digit r''
             in if ds = [] then 0
                else if neg then - digits_value ds else digits_value ds)
          else 0)"

definition parseFloat_string :: "jsstring \<Rightarrow> jsnum" where
  "parseFloat_string s =
     (let (neg, u) = parse_sign (trimStart s)
      in if startsWith u (lit ''Infinity'') then Infinity neg
         else (let ip = takeWhile is_digit u;
                   r1 = dropWhile is_digit u;
                   has_dot = (r1 \<noteq> [] \<and> hd r1 = DOT);
                   fp = (if has_dot then takeWhile is_digit (tl r1) else []);
                   r2 = (if has_dot then dropWhile is_digit (tl r1) else r1)
               in if ip = [] \<and> fp = [] then NaN
                  else to_binary64 neg
                         (of_int (digits_value (ip @ fp)) *
                          pow10 (exponent_part r2 - int (length fp)))))"

definition parseFloat :: "jsstring option \<Rightarrow> jsnum" where
  "parseFloat v = parseFloat_string (ToString v)"

definition is_hex_digit :: "nat \<Rightarrow> bool" where
  "is_hex_digit c \<longleftrightarrow> is_digit c \<or> (97 \<le> c \<and> c \<le> 102) \<or> (65 \<le> c \<and> c \<le> 70)"

definition hex_digit_value :: "nat \<Rightarrow> int" where
  "hex_digit_value c = (if c \<le> 57 then int c - 48 else if c \<le> 70 then int c - 55 else int c - 87)"

definition parseInt_string :: "jsstring \<Rightarrow> jsnum" where
  "parseInt_string s =
     (let (neg, u) = parse_sign (trimStart s)
      in if startsWith u (lit ''0x'') \<or> startsWith u (lit ''0X'') then
           (let z = takeWhile is_hex_digit (drop 2 u)
            in if z = [] then NaN
               else to_binary64 neg
                      (of_int (foldl (\<lambda>acc c. 16 * acc + hex_digit_value c) 0 z)))
         else
           (let z = takeWhile is_digit u
            in if z = [] then NaN else to_binary64 neg (of_int (digits_value z))))"

definition parseInt :: "jsstring option \<Rightarrow> jsnum" where
  "parseInt v = parseInt_string (ToString v)"

section \<open>The command table\<close>

text \<open>
  \<open>COMMAND_TYPES\<close> is an object literal, so \<open>COMMAND_TYPES[command]\<close> reads an own
  property first and then the properties every object inherits from
  \<open>Object.prototype\<close> (functions, and the prototype object itself under \<open>__proto__\<close>).
  A value read from the table is a display name; a value read from the prototype is
  kept under the name of the inherited property.
\<close>

datatype jsvalue = JSString jsstring | Inherited jsstring

definition COMMAND_TYPES :: "(jsstring \<times> jsstring) list" where
  "COMMAND_TYPES =
     [(lit ''BP00'', lit ''Heartbeat''),
      (lit ''BP01'', lit ''Login''),
      (lit ''BP02'', lit ''Position Report''),
      (lit ''BP03'', lit ''Alarm Report''),
      (lit ''BP04'', lit ''Status Report''),
      (lit ''BP05'', lit ''String Info''),
      (lit ''BP10'', lit ''GPS Info''),
      (lit ''BP11'', lit ''LBS Info''),
      (lit ''BP12'', lit ''WiFi Info''),
      (lit ''BP13'', lit ''Address Info''),
      (lit ''BP15'', lit ''Time Info''),
      (lit ''BP20'', lit ''Step Count''),
      (lit ''BP21'', lit ''Sleep Info''),
      (lit ''BP22'', lit ''Heart Rate''),
      (lit ''BP23'', lit ''Blood Pressure''),
      (lit ''BP24'', lit ''Temperature''),
      (lit ''BP25'', lit ''Blood Oxygen''),
      (lit ''BR00'', lit ''Response to command''),
      (lit ''BR01'', lit ''Configuration response'')]"

definition Object_prototype_keys :: "jsstring list" where
  "Object_prototype_keys =
     [lit ''constructor'', lit ''__defineGetter__'', lit ''__defineSetter__'',
      lit ''hasOwnProperty'', lit ''__lookupGetter__'', lit ''__lookupSetter__'',
      lit ''isPrototypeOf'', lit ''propertyIsEnumerable'', lit ''toString'',
      lit ''valueOf'', lit ''__proto__'', lit ''toLocaleString'']"

definition COMMAND_TYPES_get :: "jsstring \<Rightarrow> jsvalue option" where
  "COMMAND_TYPES_get command =
     (case map_of COMMAND_TYPES command of
        Some name \<Rightarrow> Some (JSString name)
      | None \<Rightarrow> if command \<in> set Object_prototype_keys then Some (Inherited command) else None)"

text \<open>Truth of a looked-up value: \<open>undefined\<close> and the empty string are false.\<close>

definition truthy :: "jsvalue option \<Rightarrow> bool" where
  "truthy v = (case v of None \<Rightarrow> False | Some (JSString s) \<Rightarrow> s \<noteq> [] | Some (Inherited k) \<Rightarrow> True)"

section \<open>\<open>parsePacket\<close>\<close>

text \<open>
  The three errors \<open>parsePacket\<close> throws, with the messages of the source. The \<open>catch\<close>
  block turns each into a returned object that carries the message, the input as it
  arrived and the time.
\<close>

datatype parse_error = MissingDelimiters | InsufficientFields | InvalidIMEI

fun message :: "parse_error \<Rightarrow> jsstring" where
  "message MissingDelimiters = lit ''Invalid packet format - missing start/end markers''"
| "message InsufficientFields = lit ''Invalid packet format - insufficient data''"
| "message InvalidIMEI = lit ''Invalid IMEI format''"

record parse_failure =
  error :: jsstring
  rawData :: jsstring
  failure_timestamp :: jsstring

record parsedPacket =
  imei :: jsstring
  command :: jsstring
  commandName :: jsvalue
  data :: "jsstring list"
  checksum :: jsstring
  calculatedChecksum :: jsstring
  isValid :: bool
  timestamp :: jsstring

definition caught :: "parse_error \<Rightarrow> jsstring \<Rightarrow> jsstring \<Rightarrow> parse_failure" where
  "caught e raw now = \<lparr>error = message e, rawData = raw, failure_timestamp = now\<rparr>"

text \<open>The test \<open>/^\d{15}$/\<close>: fifteen times a digit \<open>0\<close> to \<open>9\<close>, then the end of the input.\<close>

fun match_digits :: "nat \<Rightarrow> jsstring \<Rightarrow> bool" where
  "match_digits 0 s = (s = [])"
| "match_digits (Suc n) [] = False"
| "match_digits (Suc n) (c # cs) = (is_digit c \<and> match_digits n cs)"

definition imei_test :: "jsstring \<Rightarrow> bool" where
  "imei_test s = match_digits 15 s"

text \<open>
  \<open>parsePacket now data\<close> returns the object the method returns and the lines it
  writes with \<open>console.warn\<close>; \<open>now\<close> is the reading of the clock.
\<close>

definition parsePacket :: "jsstring \<Rightarrow> jsstring \<Rightarrow> (parse_failure + parsedPacket) \<times> jsstring list" where
  "parsePacket now raw =
     (let packet = trim raw in
      if \<not> startsWith packet PROTOCOL_START \<or> \<not> endsWith packet PROTOCOL_END then
        (Inl (caught MissingDelimiters raw now), [])
      else
        (let content = slice packet 1 (- 1);
             parts = split content COMMA
         in if length parts < 3 then (Inl (caught InsufficientFields raw now), [])
            else
              (let imei = parts ! 0;
                   command = parts ! 1;
                   dataFields = slice parts 2 (- 1);
                   receivedChecksum = parts ! (length parts - 1)
               in if \<not> imei_test imei then (Inl (caught InvalidIMEI raw now), [])
                  else
                    (let warnings =
                           (if \<not> truthy (COMMAND_TYPES_get command)
                            then [lit ''Unknown command type: '' @ command] else []);
                         calculated =
                           calculateChecksum (substring content 0 (lastIndexOf content COMMA))
                     in (Inr \<lparr>imei = imei,
                               command = command,
                               commandName =
                                 (if truthy (COMMAND_TYPES_get command)
                                  then the (COMMAND_TYPES_get command)
                                  else JSString (lit ''Unknown'')),
                               data = dataFields,
                               checksum = receivedChecksum,
                               calculatedChecksum = calculated,
                               isValid = (calculated = receivedChecksum),
                               timestamp = now\<rparr>,
                         warnings)))))"

section \<open>The command decoders\<close>

datatype commandData =
    LoginData (deviceType: jsstring) (firmwareVersion: jsstring) (protocol: jsstring)
  | PositionData (datetime: jsstring) (gpsFix: jsstring) (latitude: jsnum) (longitude: jsnum)
      (speed: jsnum) (course: jsnum) (altitude: jsnum) (satellites: jsnum) (hdop: jsnum)
  | AlarmData (alarmType: jsstring) (alarm_datetime: "jsstring option") (location: "jsstring list")
  | GPSData (satelliteCount: jsnum) (gps_signalStrength: jsnum) (accuracy: jsnum)
  | LBSData (mcc: jsstring) (mnc: jsstring) (lac: jsstring) (cellId: jsstring)
      (lbs_signalStrength: jsnum)
  | StepData (stepCount: jsnum) (calories: jsnum) (distance: jsnum)
  | HeartRateData (heartRate: jsnum) (measureTime: jsstring)
  | RawFallback (fallback_rawData: "jsstring list")

text \<open>\<open>v || d\<close> on a string that may be missing: the default for \<open>undefined\<close> and for \<open>''\<close>.\<close>

definition str_or :: "jsstring option \<Rightarrow> jsstring \<Rightarrow> jsstring" where
  "str_or v d = (case v of None \<Rightarrow> d | Some s \<Rightarrow> if s = [] then d else s)"

definition str_falsy :: "jsstring option \<Rightarrow> bool" where
  "str_falsy v = (case v of None \<Rightarrow> True | Some s \<Rightarrow> s = [])"

definition parseCoordinate :: "jsstring option \<Rightarrow> jsstring option \<Rightarrow> jsnum" where
  "parseCoordinate coord direction =
     (if str_falsy coord \<or> str_falsy direction then js_zero
      else
        (let c = the coord;
             degrees = parseFloat (Some (substring c 0 (indexOf c DOT - 2)));
             minutes = parseFloat (Some (substring_from c (indexOf c DOT - 2)));
             decimal = js_add degrees (js_div minutes (Finite False 60))
         in if direction = Some (lit ''S'') \<or> direction = Some (lit ''W'')
            then js_neg decimal else decimal))"

definition parseLoginData :: "jsstring list \<Rightarrow> commandData" where
  "parseLoginData d =
     LoginData (str_or (elem_at d 0) (lit ''Unknown''))
               (str_or (elem_at d 1) (lit ''Unknown''))
               (str_or (elem_at d 2) (lit ''Unknown''))"

definition parsePositionData :: "jsstring list \<Rightarrow> commandData" where
  "parsePositionData d =
     (if length d < 10 then RawFallback d
      else PositionData (d ! 0)
             (if d ! 1 = lit ''A'' then lit ''Valid'' else lit ''Invalid'')
             (parseCoordinate (elem_at d 2) (elem_at d 3))
             (parseCoordinate (elem_at d 4) (elem_at d 5))
             (num_or (parseFloat (elem_at d 6)) js_zero)
             (num_or (parseFloat (elem_at d 7)) js_zero)
             (num_or (parseFloat (elem_at d 8)) js_zero)
             (num_or (parseInt (elem_at d 9)) js_zero)
             (num_or (parseFloat (elem_at d 10)) js_zero))"

definition parseAlarmData :: "jsstring list \<Rightarrow> commandData" where
  "parseAlarmData d =
     AlarmData (str_or (elem_at d 0) (lit ''Unknown''))
               (elem_at d 1)
               (if 2 < length d then slice_from d 2 else [])"

definition parseGPSData :: "jsstring list \<Rightarrow> commandData" where
  "parseGPSData d =
     GPSData (num_or (parseInt (elem_at d 0)) js_zero)
             (num_or (parseInt (elem_at d 1)) js_zero)
             (num_or (parseFloat (elem_at d 2)) js_zero)"

definition parseLBSData :: "jsstring list \<Rightarrow> commandData" where
  "parseLBSData d =
     LBSData (str_or (elem_at d 0) (lit ''Unknown''))
             (str_or (elem_at d 1) (lit ''Unknown''))
             (str_or (elem_at d 2) (lit ''Unknown''))
             (str_or (elem_at d 3) (lit ''Unknown''))
             (num_or (parseInt (elem_at d 4)) js_zero)"

definition parseStepData :: "jsstring list \<Rightarrow> commandData" where
  "parseStepData d =
     StepData (num_or (parseInt (elem_at d 0)) js_zero)
              (num_or (parseFloat (elem_at d 1)) js_zero)
              (num_or (parseFloat (elem_at d 2)) js_zero)"

definition parseHeartRateData :: "jsstring \<Rightarrow> jsstring list \<Rightarrow> commandData" where
  "parseHeartRateData now d =
     HeartRateData (num_or (parseInt (elem_at d 0)) js_zero) (str_or (elem_at d 1) now)"

text \<open>The \<open>switch\<close> of \<open>parseCommandData\<close>, in the order of its cases.\<close>

definition parseCommandData :: "jsstring \<Rightarrow> jsstring \<Rightarrow> jsstring list \<Rightarrow> commandData" where
  "parseCommandData now cmd d =
     (if cmd = lit ''BP01'' then parseLoginData d
      else if cmd = lit ''BP02'' then parsePositionData d
      else if cmd = lit ''BP03'' then parseAlarmData d
      else if cmd = lit ''BP10'' then parseGPSData d
      else if cmd = lit ''BP11'' then parseLBSData d
      else if cmd = lit ''BP20'' then parseStepData d
      else if cmd = lit ''BP22'' then parseHeartRateData now d
      else RawFallback d)"

section \<open>The connection handler\<close>

text \<open>
  The parser object has one field, \<open>buffer\<close>, set to the empty string by the
  constructor; no method reads or writes it. The \<open>data\<close> handler of a socket passes each
  arrival to \<open>parsePacket\<close> as it came and, when no error was returned, decodes the
  fields and writes the acknowledgment. The handler tests \<open>parsedPacket.error\<close>, which is
  one of the three messages (none of them empty, so the test holds) on an error object
  and \<open>undefined\<close> on a packet. \<open>on_data\<close> returns the parser after the call and what
  the call did: the object \<open>parsePacket\<close> returned, its warnings, the decoded data and
  the strings given to \<open>socket.write\<close>. One reading of the clock serves both the
  packet and the default time of a heart rate.
\<close>

record GT60PacketParser =
  buffer :: jsstring

definition new_GT60PacketParser :: GT60PacketParser where
  "new_GT60PacketParser = \<lparr>buffer = []\<rparr>"

record data_event =
  parsed :: "parse_failure + parsedPacket"
  warned :: "jsstring list"
  decoded :: "commandData option"
  written :: "jsstring list"

definition ackMessage :: "parsedPacket \<Rightarrow> jsstring" where
  "ackMessage p = lit ''('' @ imei p @ lit '',BR00,OK)''"

definition on_data :: "GT60PacketParser \<Rightarrow> jsstring \<Rightarrow> jsstring \<Rightarrow> GT60PacketParser \<times> data_event" where
  "on_data parser now raw =
     (let (result, warnings) = parsePacket now raw
      in case result of
           Inl failure \<Rightarrow>
             (parser, \<lparr>parsed = result, warned = warnings, decoded = None, written = []\<rparr>)
         | Inr p \<Rightarrow>
             (parser, \<lparr>parsed = result, warned = warnings,
                        decoded = Some (parseCommandData now (command p) (data p)),
                        written = [ackMessage p]\<rparr>))"

text \<open>A connection: the arrivals in order, each with the reading of the clock.\<close>

fun serve :: "GT60PacketParser \<Rightarrow> (jsstring \<times> jsstring) list \<Rightarrow> GT60PacketParser \<times> data_event list" where
  "serve parser [] = (parser, [])"
| "serve parser ((now, raw) # rest) =
     (let (parser', ev) = on_data parser now raw;
          (parser'', evs) = serve parser' rest
      in (parser'', ev # evs))"

text \<open>The events of a connection that carry a parsed packet, in order.\<close>

fun packets_of :: "data_event list \<Rightarrow> parsedPacket list" where
  "packets_of [] = []"
| "packets_of (ev # evs) =
     (case parsed ev of Inl failure \<Rightarrow> packets_of evs | Inr p \<Rightarrow> p # packets_of evs)"

section \<open>The simulator\<close>

text \<open>
  \<open>sendPacket\<close> of the device simulator joins the IMEI, the command and the data with
  commas, computes the checksum of that text with its own copy of \<open>calculateChecksum\<close>
  (the same code as the server's) and writes the text and the checksum between the
  markers. \<open>sendPacket imei command d\<close> is the string it writes, for a simulator
  whose \<open>imei\<close> field is \<open>imei\<close>.
\<close>

fun join :: "jsstring list \<Rightarrow> jsstring" where
  "join [] = []"
| "join [x] = x"
| "join (x # y # r) = x @ COMMA # join (y # r)"

definition sendPacket :: "jsstring \<Rightarrow> jsstring \<Rightarrow> jsstring list \<Rightarrow> jsstring" where
  "sendPacket device_imei cmd d =
     (let content = join (device_imei # cmd # d);
          sum = calculateChecksum content
      in lit ''('' @ content @ lit '','' @ sum @ lit '')'')"

section \<open>Notions used in the statements\<close>

text \<open>The parts \<open>parsePacket\<close> splits an input into, once trimmed and stripped.\<close>

definition packet_parts :: "jsstring \<Rightarrow> jsstring list" where
  "packet_parts raw = split (slice (trim raw) 1 (- 1)) COMMA"

definition delimited :: "jsstring \<Rightarrow> bool" where
  "delimited raw \<longleftrightarrow> startsWith (trim raw) PROTOCOL_START \<and> endsWith (trim raw) PROTOCOL_END"

text \<open>A result is the failure of kind \<open>e\<close>: an error object with the message of \<open>e\<close>.\<close>

definition fails_with :: "parse_failure + parsedPacket \<Rightarrow> parse_error \<Rightarrow> bool" where
  "fails_with r e = (case r of Inl f \<Rightarrow> error f = message e | Inr p \<Rightarrow> False)"

section \<open>Properties of the checksum\<close>

lemma and_0xFFFF: "(n::nat) AND 0xFFFF = n mod 65536"
proof -
  have "n AND mask 16 = take_bit 16 n"
    by (simp only: take_bit_eq_mask)
  then show ?thesis
    by (simp add: take_bit_eq_mod mask_eq_exp_minus_1)
qed

lemma foldl_plus: "foldl (+) a xs = a + sum_list xs" for a :: nat
  by (induction xs arbitrary: a) simp_all

lemma char_code_sum: "char_code_sum s = sum_list s"
  by (simp add: char_code_sum_def foldl_plus)

lemma toString16_small: "n < 16 \<Longrightarrow> toString16 n = [hex_digit n]"
  by (subst toString16.simps) simp

lemma toString16_step:
  "16 \<le> n \<Longrightarrow> toString16 n = toString16 (n div 16) @ [hex_digit (n mod 16)]"
  by (subst toString16.simps) simp

lemma toUpperCase_hex_digit: "d < 16 \<Longrightarrow> toUpperCase [hex_digit d] = [upper_hex_digit d]"
  by (simp add: toUpperCase_def hex_digit_def upper_hex_digit_def)

lemma toUpperCase_append: "toUpperCase (a @ b) = toUpperCase a @ toUpperCase b"
  by (simp add: toUpperCase_def)

lemma upper16_1: "n < 16 \<Longrightarrow> toUpperCase (toString16 n) = [upper_hex_digit n]"
  by (simp add: toString16_small toUpperCase_hex_digit)

lemma upper16_2:
  assumes "16 \<le> n" "n < 256"
  shows "toUpperCase (toString16 n) = [upper_hex_digit (n div 16), upper_hex_digit (n mod 16)]"
proof -
  from assms have "n div 16 < 16" by simp
  with assms show ?thesis
    by (simp add: toString16_step toUpperCase_append upper16_1 toUpperCase_hex_digit)
qed

lemma upper16_3:
  assumes "256 \<le> n" "n < 4096"
  shows "toUpperCase (toString16 n) =
    [upper_hex_digit (n div 256), upper_hex_digit (n div 16 mod 16), upper_hex_digit (n mod 16)]"
proof -
  from assms have "16 \<le> n div 16" "n div 16 < 256" "n div 16 div 16 = n div 256"
    by (simp_all add: div_mult2_eq [symmetric])
  with assms show ?thesis
    by (simp add: toString16_step [of n] toUpperCase_append upper16_2 toUpperCase_hex_digit)
qed

lemma upper16_4:
  assumes "4096 \<le> n" "n < 65536"
  shows "toUpperCase (toString16 n) =
    [upper_hex_digit (n div 4096), upper_hex_digit (n div 256 mod 16),
     upper_hex_digit (n div 16 mod 16), upper_hex_digit (n mod 16)]"
proof -
  from assms have "256 \<le> n div 16" "n div 16 < 4096" "n div 16 div 256 = n div 4096"
      "n div 16 div 16 = n div 256"
    by (simp_all add: div_mult2_eq [symmetric])
  with assms show ?thesis
    by (simp add: toString16_step [of n] toUpperCase_append upper16_3 toUpperCase_hex_digit)
qed

lemma replicate_3: "replicate 3 c = [c, c, c]"
  by (simp add: numeral_3_eq_3)

lemma replicate_2: "replicate 2 c = [c, c]"
  by (simp add: numeral_2_eq_2)

lemma padded_hex:
  assumes "n < 65536"
  shows "padStart (toUpperCase (toString16 n)) 4 48 =
    [upper_hex_digit (n div 4096), upper_hex_digit (n div 256 mod 16),
     upper_hex_digit (n div 16 mod 16), upper_hex_digit (n mod 16)]"
proof -
  consider "n < 16" | "16 \<le> n" "n < 256" | "256 \<le> n" "n < 4096" | "4096 \<le> n"
    by linarith
  then show ?thesis
  proof cases
    case 1
    then show ?thesis
      by (simp add: upper16_1 padStart_def upper_hex_digit_def replicate_3)
  next
    case 2
    then show ?thesis
      by (simp add: upper16_2 padStart_def upper_hex_digit_def replicate_2)
  next
    case 3
    then show ?thesis
      by (simp add: upper16_3 padStart_def upper_hex_digit_def)
  next
    case 4
    with assms show ?thesis
      by (simp add: upper16_4 padStart_def)
  qed
qed

lemma calculateChecksum_digits:
  "calculateChecksum s =
     (let v = sum_list s mod 65536
      in [upper_hex_digit (v div 4096), upper_hex_digit (v div 256 mod 16),
          upper_hex_digit (v div 16 mod 16), upper_hex_digit (v mod 16)])"
  by (simp add: calculateChecksum_def and_0xFFFF char_code_sum padded_hex Let_def)

lemma is_upper_hex_digit: "d < 16 \<Longrightarrow> is_upper_hex (upper_hex_digit d)"
  by (auto simp: is_upper_hex_def upper_hex_digit_def)

lemma upper_hex_value_digit: "d < 16 \<Longrightarrow> upper_hex_value (upper_hex_digit d) = d"
  by (auto simp: upper_hex_value_def upper_hex_digit_def)

lemma four_digits_value:
  fixes v :: nat
  assumes "v < 65536"
  shows "16 * (16 * (16 * (v div 4096) + v div 256 mod 16) + v div 16 mod 16) + v mod 16 = v"
proof -
  have a: "v div 256 = 16 * (v div 4096) + v div 256 mod 16"
    using div_mult_mod_eq [of "v div 256" 16] by (simp add: div_mult2_eq [symmetric])
  have b: "v div 16 = 16 * (v div 256) + v div 16 mod 16"
    using div_mult_mod_eq [of "v div 16" 16] by (simp add: div_mult2_eq [symmetric])
  have c: "v = 16 * (v div 16) + v mod 16"
    by simp
  from a b c show ?thesis
    by presburger
qed

text \<open>
  C5. For every string \<open>s\<close>, \<open>calculateChecksum s\<close> has exactly four characters, each an
  upper-case hexadecimal digit, and read as a hexadecimal number it is the sum of the
  character codes of \<open>s\<close> masked with \<open>0xFFFF\<close> (the sum modulo 65536). The result is a
  function of \<open>s\<close> alone, so the same input always gives the same output.
\<close>

theorem calculateChecksum_four_upper_hex:
  "length (calculateChecksum s) = 4 \<and>
   list_all is_upper_hex (calculateChecksum s) \<and>
   hex_value (calculateChecksum s) = sum_list s mod 65536 \<and>
   hex_value (calculateChecksum s) = char_code_sum s AND 0xFFFF"
proof -
  define v where "v = sum_list s mod 65536"
  have v: "v < 65536"
    by (simp add: v_def)
  then have d: "v div 4096 < 16" "v div 256 mod 16 < 16" "v div 16 mod 16 < 16" "v mod 16 < 16"
    by simp_all
  have c: "calculateChecksum s =
      [upper_hex_digit (v div 4096), upper_hex_digit (v div 256 mod 16),
       upper_hex_digit (v div 16 mod 16), upper_hex_digit (v mod 16)]"
    by (simp add: calculateChecksum_digits v_def Let_def)
  have "hex_value (calculateChecksum s) = v"
    using four_digits_value [OF v] by (simp add: c hex_value_def upper_hex_value_digit d)
  moreover have "list_all is_upper_hex (calculateChecksum s)"
    by (simp add: c is_upper_hex_digit d)
  moreover have "length (calculateChecksum s) = 4"
    by (simp add: c)
  ultimately show ?thesis
    by (simp add: v_def and_0xFFFF char_code_sum)
qed

theorem calculateChecksum_four_upper_hex_witness:
  "length (calculateChecksum (lit ''123456789012345,BP00'')) = 4 \<and>
   list_all is_upper_hex (calculateChecksum (lit ''123456789012345,BP00'')) \<and>
   hex_value (calculateChecksum (lit ''123456789012345,BP00'')) = 1066"
  using calculateChecksum_four_upper_hex [of "lit ''123456789012345,BP00''"]
  by (simp add: lit_def)

section \<open>Properties of the string operations\<close>

lemma split_nonempty: "split s c \<noteq> []"
  by (induction s) (simp_all add: Let_def)

lemma split_append: "split (a @ c # b) c = split a c @ split b c"
proof (induction a)
  case Nil
  show ?case by simp
next
  case (Cons x a)
  then show ?case
    using split_nonempty [of a c] by (simp add: Let_def)
qed

lemma split_no_separator: "c \<notin> set s \<Longrightarrow> split s c = [s]"
  by (induction s) (auto simp: Let_def)

lemma split_joined:
  "list_all (\<lambda>f. c \<notin> set f) fs \<Longrightarrow> split (a @ concat (map ((#) c) fs)) c = split a c @ fs"
proof (induction fs arbitrary: a)
  case Nil
  show ?case by simp
next
  case (Cons f fs)
  from Cons.prems have f: "c \<notin> set f" and fs: "list_all (\<lambda>f. c \<notin> set f) fs"
    by simp_all
  have "split ((a @ c # f) @ concat (map ((#) c) fs)) c = split (a @ c # f) c @ fs"
    by (rule Cons.IH [OF fs])
  then show ?case
    by (simp add: split_append split_no_separator [OF f])
qed

lemma lastIndexOf_absent: "c \<notin> set s \<Longrightarrow> lastIndexOf s c = - 1"
  by (induction s) (auto simp: Let_def)

lemma lastIndexOf_last: "c \<notin> set b \<Longrightarrow> lastIndexOf (a @ c # b) c = int (length a)"
  by (induction a) (auto simp: Let_def lastIndexOf_absent)

lemma substring_prefix: "substring (a @ b) 0 (int (length a)) = a"
  by (simp add: substring_def substring_index_def Let_def)

lemma slice_strip: "slice (x # s @ [y]) 1 (- 1) = s"
  by (simp add: slice_def slice_index_def Let_def)

lemma slice_fields: "3 \<le> length xs \<Longrightarrow> slice xs 2 (- 1) = take (length xs - 3) (drop 2 xs)"
proof -
  assume "3 \<le> length xs"
  then have "nat (int (length xs) - 1) - 2 = length xs - 3"
    by linarith
  then show ?thesis
    using \<open>3 \<le> length xs\<close> by (simp add: slice_def slice_index_def Let_def)
qed

lemma trim_whitespace_around:
  assumes "list_all is_whitespace w1" "list_all is_whitespace w2"
  shows "trim (w1 @ f @ w2) = trim f"
proof -
  have a: "dropWhile is_whitespace (w1 @ f @ w2) = dropWhile is_whitespace (f @ w2)"
    using assms(1) by (simp add: dropWhile_append2 list_all_iff)
  show ?thesis
  proof (cases "list_all is_whitespace f")
    case True
    then have "dropWhile is_whitespace (f @ w2) = []" "dropWhile is_whitespace f = []"
      using assms(2) by (simp_all add: list_all_iff)
    with a show ?thesis by (simp only: trim_def)
  next
    case False
    then obtain x where x: "x \<in> set f" "\<not> is_whitespace x"
      by (auto simp: list_all_iff)
    then have "dropWhile is_whitespace (f @ w2) = dropWhile is_whitespace f @ w2"
      by (simp add: dropWhile_append1)
    moreover have "dropWhile is_whitespace (rev w2 @ rev (dropWhile is_whitespace f)) =
        dropWhile is_whitespace (rev (dropWhile is_whitespace f))"
      using assms(2) by (intro dropWhile_append2) (simp add: list_all_iff)
    ultimately show ?thesis
      using a by (simp add: trim_def)
  qed
qed

lemma trim_id: "\<not> is_whitespace x \<Longrightarrow> \<not> is_whitespace y \<Longrightarrow> trim (x # s @ [y]) = x # s @ [y]"
  by (simp add: trim_def)

lemma match_digits_iff: "match_digits n s \<longleftrightarrow> length s = n \<and> list_all is_digit s"
proof (induction n arbitrary: s)
  case 0
  show ?case by auto
next
  case (Suc n)
  then show ?case by (cases s) auto
qed

lemma imei_test_iff: "imei_test s \<longleftrightarrow> length s = 15 \<and> list_all is_digit s"
  by (simp add: imei_test_def match_digits_iff)

lemma message_inject: "message a = message b \<longleftrightarrow> a = b"
  by (cases a; cases b) (simp_all add: lit_def)

lemma join_Cons: "join (x # xs) = x @ concat (map ((#) COMMA) xs)"
  by (induction xs arbitrary: x) simp_all

lemma upper_hex_digit_not_comma: "d < 16 \<Longrightarrow> upper_hex_digit d \<noteq> COMMA"
  by (simp add: upper_hex_digit_def COMMA_def)

lemma checksum_no_comma: "COMMA \<notin> set (calculateChecksum s)"
proof -
  have "sum_list s mod 65536 < 65536" by simp
  then have "sum_list s mod 65536 div 4096 < 16" by simp
  then show ?thesis
    by (simp add: calculateChecksum_digits Let_def upper_hex_digit_not_comma [symmetric] del: mod_mod_trivial)
       
qed

section \<open>Properties of \<open>parsePacket\<close>\<close>

text \<open>The result and the warnings of \<open>parsePacket\<close>, branch by branch.\<close>

lemma parsePacket_result:
  "fst (parsePacket now raw) =
     (if \<not> delimited raw then Inl (caught MissingDelimiters raw now)
      else if length (packet_parts raw) < 3 then Inl (caught InsufficientFields raw now)
      else if \<not> imei_test (packet_parts raw ! 0) then Inl (caught InvalidIMEI raw now)
      else Inr \<lparr>imei = packet_parts raw ! 0,
                command = packet_parts raw ! 1,
                commandName =
                  (if truthy (COMMAND_TYPES_get (packet_parts raw ! 1))
                   then the (COMMAND_TYPES_get (packet_parts raw ! 1))
                   else JSString (lit ''Unknown'')),
                data = slice (packet_parts raw) 2 (- 1),
                checksum = packet_parts raw ! (length (packet_parts raw) - 1),
                calculatedChecksum =
                  calculateChecksum
                    (substring (slice (trim raw) 1 (- 1)) 0
                       (lastIndexOf (slice (trim raw) 1 (- 1)) COMMA)),
                isValid =
                  (calculateChecksum
                     (substring (slice (trim raw) 1 (- 1)) 0
                        (lastIndexOf (slice (trim raw) 1 (- 1)) COMMA)) =
                   packet_parts raw ! (length (packet_parts raw) - 1)),
                timestamp = now\<rparr>)"
  by (simp add: parsePacket_def Let_def delimited_def packet_parts_def)

lemma parsePacket_warnings:
  "snd (parsePacket now raw) =
     (if delimited raw \<and> 3 \<le> length (packet_parts raw) \<and> imei_test (packet_parts raw ! 0) \<and>
         \<not> truthy (COMMAND_TYPES_get (packet_parts raw ! 1))
      then [lit ''Unknown command type: '' @ packet_parts raw ! 1] else [])"
  by (simp add: parsePacket_def Let_def delimited_def packet_parts_def)

lemmas parse_eval = parsePacket_result parsePacket_warnings delimited_def packet_parts_def
  trim_def startsWith_def endsWith_def PROTOCOL_START_def PROTOCOL_END_def is_whitespace_def
  slice_def slice_index_def substring_def substring_index_def COMMA_def Let_def lit_def
  imei_test_iff is_digit_def calculateChecksum_digits upper_hex_digit_def
  COMMAND_TYPES_get_def COMMAND_TYPES_def Object_prototype_keys_def truthy_def caught_def

text \<open>
  The text whose checksum is computed, everything before the last comma of the
  content, is the parts without the last one, joined by commas again.
\<close>

lemma join_split: "join (split s COMMA) = s"
proof (induction s)
  case Nil
  show ?case by simp
next
  case (Cons x xs)
  obtain h t where r: "split xs COMMA = h # t"
    using split_nonempty [of xs COMMA] by (cases "split xs COMMA") auto
  with Cons.IH have xs: "h @ concat (map ((#) COMMA) t) = xs"
    by (simp add: join_Cons)
  show ?case
  proof (cases "x = COMMA")
    case True
    with Cons.IH r show ?thesis by simp
  next
    case False
    with r xs show ?thesis by (simp add: Let_def join_Cons)
  qed
qed

lemma checksummed_text:
  assumes "2 \<le> length (split s COMMA)"
  shows "substring s 0 (lastIndexOf s COMMA) = join (butlast (split s COMMA))"
    and "COMMA \<notin> set (last (split s COMMA))"
    and "s = join (butlast (split s COMMA)) @ COMMA # last (split s COMMA)"
proof -
  have "COMMA \<in> set s"
  proof (rule ccontr)
    assume "COMMA \<notin> set s"
    then have "split s COMMA = [s]" by (rule split_no_separator)
    with assms show False by simp
  qed
  then obtain a b where s: "s = a @ COMMA # b" and b: "COMMA \<notin> set b"
    by (auto dest: split_list_last)
  have parts: "split s COMMA = split a COMMA @ [b]"
    by (simp add: s split_append split_no_separator [OF b])
  have cut: "substring s 0 (lastIndexOf s COMMA) = a"
    unfolding s by (simp only: lastIndexOf_last [OF b] substring_prefix)
  from parts have bl: "butlast (split s COMMA) = split a COMMA" "last (split s COMMA) = b"
    by simp_all
  show "substring s 0 (lastIndexOf s COMMA) = join (butlast (split s COMMA))"
    by (simp only: cut bl join_split)
  show "COMMA \<notin> set (last (split s COMMA))"
    by (simp only: bl) (rule b)
  show "s = join (butlast (split s COMMA)) @ COMMA # last (split s COMMA)"
    by (simp only: bl join_split) (rule s)
qed

lemma last_part: "xs \<noteq> [] \<Longrightarrow> xs ! (length xs - 1) = last xs"
  by (simp add: last_conv_nth)

text \<open>
  C4. With \<open>parts\<close> the comma-separated parts of the trimmed input without its first
  and last character: \<open>parsePacket\<close> fails with the message of \<open>MissingDelimiters\<close>
  exactly when the trimmed input does not both start with \<open>(\<close> and end with \<open>)\<close>;
  otherwise with that of \<open>InsufficientFields\<close> exactly when there are fewer than 3
  parts; otherwise with that of \<open>InvalidIMEI\<close> exactly when \<open>parts[0]\<close> is not 15 ASCII
  digits; otherwise it succeeds, whatever the checksum. On success the received
  checksum is the last part, the computed checksum is \<open>calculateChecksum\<close> of the other
  parts joined by commas (the content before its last comma), and \<open>isValid\<close> is true
  exactly when the two are equal: a mismatch only makes \<open>isValid\<close> false. Every failure
  is a returned object that carries the input as it arrived.
\<close>

theorem parse_failure_taxonomy:
  "(let r = fst (parsePacket now raw); parts = packet_parts raw in
    (fails_with r MissingDelimiters \<longleftrightarrow> \<not> delimited raw) \<and>
    (fails_with r InsufficientFields \<longleftrightarrow> delimited raw \<and> length parts < 3) \<and>
    (fails_with r InvalidIMEI \<longleftrightarrow>
       delimited raw \<and> 3 \<le> length parts \<and>
       \<not> (length (parts ! 0) = 15 \<and> list_all is_digit (parts ! 0))) \<and>
    ((\<exists>p. r = Inr p) \<longleftrightarrow>
       delimited raw \<and> 3 \<le> length parts \<and>
       length (parts ! 0) = 15 \<and> list_all is_digit (parts ! 0)) \<and>
    (case r of
       Inl f \<Rightarrow> rawData f = raw \<and> failure_timestamp f = now
     | Inr p \<Rightarrow>
         isValid p = (calculatedChecksum p = checksum p) \<and>
         checksum p = last parts \<and>
         calculatedChecksum p = calculateChecksum (join (butlast parts)) \<and>
         isValid p = (calculateChecksum (join (butlast parts)) = last parts) \<and>
         slice (trim raw) 1 (- 1) = join (butlast parts) @ COMMA # last parts))"
proof -
  have pinned:
    "substring (slice (trim raw) 1 (- 1)) 0 (lastIndexOf (slice (trim raw) 1 (- 1)) COMMA) =
       join (butlast (packet_parts raw)) \<and>
     packet_parts raw ! (length (packet_parts raw) - 1) = last (packet_parts raw) \<and>
     slice (trim raw) 1 (- 1) =
       join (butlast (packet_parts raw)) @ COMMA # last (packet_parts raw)"
    if "3 \<le> length (packet_parts raw)"
  proof -
    from that have two: "2 \<le> length (split (slice (trim raw) 1 (- 1)) COMMA)"
      and ne: "packet_parts raw \<noteq> []"
      by (auto simp: packet_parts_def)
    from checksummed_text(1) [OF two] checksummed_text(3) [OF two] last_part [OF ne]
    show ?thesis
      by (simp add: packet_parts_def)
  qed
  show ?thesis
  proof (cases "delimited raw \<and> 3 \<le> length (packet_parts raw) \<and> imei_test (packet_parts raw ! 0)")
    case True
    then have len: "3 \<le> length (packet_parts raw)" by simp
    note p = pinned [OF len]
    from True p [THEN conjunct2, THEN conjunct2] show ?thesis
      unfolding Let_def parsePacket_result [of now raw]
        p [THEN conjunct1] p [THEN conjunct2, THEN conjunct1]
      by (simp add: fails_with_def imei_test_iff)
  next
    case False
    then show ?thesis
      unfolding Let_def parsePacket_result [of now raw]
      by (auto simp: fails_with_def caught_def message_inject imei_test_iff simp del: message.simps)
  qed
qed

theorem parse_failure_taxonomy_witness:
  "fails_with (fst (parsePacket (lit ''2025-01-01T12:00:00.000Z'') (lit ''(123456789012345,BP00)'')))
     InsufficientFields \<and>
   fails_with (fst (parsePacket (lit ''2025-01-01T12:00:00.000Z'') (lit ''123456789012345,BP00,ABCD)'')))
     MissingDelimiters \<and>
   fails_with (fst (parsePacket (lit ''2025-01-01T12:00:00.000Z'') (lit ''(12345678901234x,BP00,ABCD)'')))
     InvalidIMEI \<and>
   (\<exists>p. fst (parsePacket (lit ''2025-01-01T12:00:00.000Z'') (lit ''(123456789012345,BP00,ABCD)'')) = Inr p) \<and>
   \<not> isValid (projr (fst (parsePacket (lit ''2025-01-01T12:00:00.000Z'')
                         (lit ''(123456789012345,BP00,FFFF)'')))) \<and>
   isValid (projr (fst (parsePacket (lit ''2025-01-01T12:00:00.000Z'')
                       (lit ''(123456789012345,BP00,042A)''))))"
proof -
  have kinds:
    "fails_with (fst (parsePacket (lit ''2025-01-01T12:00:00.000Z'') (lit ''(123456789012345,BP00)'')))
       InsufficientFields \<and>
     fails_with (fst (parsePacket (lit ''2025-01-01T12:00:00.000Z'') (lit ''123456789012345,BP00,ABCD)'')))
       MissingDelimiters \<and>
     fails_with (fst (parsePacket (lit ''2025-01-01T12:00:00.000Z'') (lit ''(12345678901234x,BP00,ABCD)'')))
       InvalidIMEI \<and>
     (\<exists>p. fst (parsePacket (lit ''2025-01-01T12:00:00.000Z'') (lit ''(123456789012345,BP00,ABCD)'')) = Inr p)"
    using parse_failure_taxonomy [of "lit ''2025-01-01T12:00:00.000Z''" "lit ''(123456789012345,BP00)''"]
      parse_failure_taxonomy [of "lit ''2025-01-01T12:00:00.000Z''" "lit ''123456789012345,BP00,ABCD)''"]
      parse_failure_taxonomy [of "lit ''2025-01-01T12:00:00.000Z''" "lit ''(12345678901234x,BP00,ABCD)''"]
      parse_failure_taxonomy [of "lit ''2025-01-01T12:00:00.000Z''" "lit ''(123456789012345,BP00,ABCD)''"]
    by (simp add: delimited_def packet_parts_def trim_def startsWith_def endsWith_def
        PROTOCOL_START_def PROTOCOL_END_def is_whitespace_def slice_def slice_index_def COMMA_def
        Let_def lit_def is_digit_def)
  have wrong: "\<not> isValid (projr (fst (parsePacket (lit ''2025-01-01T12:00:00.000Z'')
                         (lit ''(123456789012345,BP00,FFFF)''))))"
  proof -
    note t = parse_failure_taxonomy [of "lit ''2025-01-01T12:00:00.000Z''" "lit ''(123456789012345,BP00,FFFF)''",
        unfolded Let_def]
    have d: "delimited (lit ''(123456789012345,BP00,FFFF)'')"
      by (simp add: delimited_def trim_def startsWith_def endsWith_def PROTOCOL_START_def
          PROTOCOL_END_def is_whitespace_def lit_def)
    have parts: "packet_parts (lit ''(123456789012345,BP00,FFFF)'') =
        [lit ''123456789012345'', lit ''BP00'', lit ''FFFF'']"
      by (simp add: packet_parts_def trim_def is_whitespace_def slice_def slice_index_def
          COMMA_def Let_def lit_def)
    have i: "length (lit ''123456789012345'') = 15 \<and> list_all is_digit (lit ''123456789012345'')"
      by (simp add: lit_def is_digit_def)
    from t d i obtain p where p: "fst (parsePacket (lit ''2025-01-01T12:00:00.000Z'')
        (lit ''(123456789012345,BP00,FFFF)'')) = Inr p"
      by (auto simp: parts)
    have c: "calculateChecksum (join [lit ''123456789012345'', lit ''BP00'']) = lit ''042A''"
      by (simp add: calculateChecksum_digits upper_hex_digit_def lit_def COMMA_def Let_def)
    have n: "lit ''042A'' \<noteq> lit ''FFFF''"
      by (simp add: lit_def)
    from t have "isValid p = (calculateChecksum (join [lit ''123456789012345'', lit ''BP00'']) = lit ''FFFF'')"
      by (simp add: p parts)
    with c n show ?thesis
      by (simp add: p)
  qed
  have right: "isValid (projr (fst (parsePacket (lit ''2025-01-01T12:00:00.000Z'')
                       (lit ''(123456789012345,BP00,042A)''))))"
  proof -
    note t = parse_failure_taxonomy [of "lit ''2025-01-01T12:00:00.000Z''" "lit ''(123456789012345,BP00,042A)''",
        unfolded Let_def]
    have d: "delimited (lit ''(123456789012345,BP00,042A)'')"
      by (simp add: delimited_def trim_def startsWith_def endsWith_def PROTOCOL_START_def
          PROTOCOL_END_def is_whitespace_def lit_def)
    have parts: "packet_parts (lit ''(123456789012345,BP00,042A)'') =
        [lit ''123456789012345'', lit ''BP00'', lit ''042A'']"
      by (simp add: packet_parts_def trim_def is_whitespace_def slice_def slice_index_def
          COMMA_def Let_def lit_def)
    have i: "length (lit ''123456789012345'') = 15 \<and> list_all is_digit (lit ''123456789012345'')"
      by (simp add: lit_def is_digit_def)
    from t d i obtain p where p: "fst (parsePacket (lit ''2025-01-01T12:00:00.000Z'')
        (lit ''(123456789012345,BP00,042A)'')) = Inr p"
      by (auto simp: parts)
    have c: "calculateChecksum (join [lit ''123456789012345'', lit ''BP00'']) = lit ''042A''"
      by (simp add: calculateChecksum_digits upper_hex_digit_def lit_def COMMA_def Let_def)
    from t have "isValid p = (calculateChecksum (join [lit ''123456789012345'', lit ''BP00'']) = lit ''042A'')"
      by (simp add: p parts)
    with c show ?thesis
      by (simp add: p)
  qed
  from kinds wrong right show ?thesis
    by simp
qed

section \<open>Frames built by the simulator\<close>

lemma digits_no_comma: "list_all is_digit s \<Longrightarrow> COMMA \<notin> set s"
  by (auto simp: list_all_iff is_digit_def COMMA_def)

lemma sendPacket_shape:
  "sendPacket i cmd d =
     40 # (join (i # cmd # d) @ COMMA # calculateChecksum (join (i # cmd # d))) @ [41]"
  by (simp add: sendPacket_def Let_def lit_def COMMA_def)

lemma trim_sendPacket: "trim (sendPacket i cmd d) = sendPacket i cmd d"
  unfolding sendPacket_shape by (rule trim_id) (simp_all add: is_whitespace_def)

lemma delimited_sendPacket: "delimited (sendPacket i cmd d)"
  unfolding delimited_def trim_sendPacket
  by (simp add: sendPacket_shape startsWith_def endsWith_def PROTOCOL_START_def PROTOCOL_END_def)

lemma content_sendPacket:
  "slice (trim (sendPacket i cmd d)) 1 (- 1) =
     join (i # cmd # d) @ COMMA # calculateChecksum (join (i # cmd # d))"
  unfolding trim_sendPacket unfolding sendPacket_shape by (rule slice_strip)

lemma parts_sendPacket:
  assumes "COMMA \<notin> set i" "COMMA \<notin> set cmd" "list_all (\<lambda>f. COMMA \<notin> set f) d"
  shows "packet_parts (sendPacket i cmd d) = i # cmd # d @ [calculateChecksum (join (i # cmd # d))]"
proof -
  have "split (join (i # cmd # d)) COMMA = split i COMMA @ (cmd # d)"
    unfolding join_Cons using assms(2,3) by (intro split_joined) simp
  then show ?thesis
    using assms(1)
    by (simp add: packet_parts_def content_sendPacket split_append split_no_separator checksum_no_comma)
qed

lemma checksummed_sendPacket:
  "substring (slice (trim (sendPacket i cmd d)) 1 (- 1)) 0
     (lastIndexOf (slice (trim (sendPacket i cmd d)) 1 (- 1)) COMMA) = join (i # cmd # d)"
  by (simp only: content_sendPacket lastIndexOf_last [OF checksum_no_comma] substring_prefix)

text \<open>
  C3. For an IMEI of exactly 15 ASCII digits, a command and a list of fields without a
  comma, the frame \<open>(imei,command,field,...,checksum)\<close> that \<open>sendPacket\<close> builds, its
  checksum computed over \<open>imei,command,field,...\<close>, parses successfully: the packet has
  that IMEI, command and fields, and \<open>isValid\<close> is true. (The markers in a command or a
  field do no harm, so the statement does not exclude them.)
\<close>

theorem sendPacket_round_trip:
  assumes "length i = 15" and "list_all is_digit i"
    and "COMMA \<notin> set cmd" and "list_all (\<lambda>f. COMMA \<notin> set f) d"
  shows "fst (parsePacket now (sendPacket i cmd d)) =
    Inr \<lparr>imei = i, command = cmd,
         commandName =
           (if truthy (COMMAND_TYPES_get cmd) then the (COMMAND_TYPES_get cmd)
            else JSString (lit ''Unknown'')),
         data = d,
         checksum = calculateChecksum (join (i # cmd # d)),
         calculatedChecksum = calculateChecksum (join (i # cmd # d)),
         isValid = True, timestamp = now\<rparr>"
proof -
  have parts: "packet_parts (sendPacket i cmd d) =
      i # cmd # d @ [calculateChecksum (join (i # cmd # d))]"
    using assms(3,4) digits_no_comma [OF assms(2)] by (rule parts_sendPacket [rotated])
  have fields: "slice (i # cmd # d @ [calculateChecksum (join (i # cmd # d))]) 2 (- 1) = d"
    by (simp add: slice_fields)
  show ?thesis
    unfolding parsePacket_result checksummed_sendPacket parts fields
    using assms(1,2) by (simp add: delimited_sendPacket imei_test_iff nth_append)
qed

theorem sendPacket_round_trip_witness:
  "length (lit ''123456789012345'') = 15 \<and> list_all is_digit (lit ''123456789012345'') \<and>
   COMMA \<notin> set (lit ''BP01'') \<and>
   list_all (\<lambda>f. COMMA \<notin> set f) [lit ''GT60'', lit ''V1.0'', lit ''1.0''] \<and>
   fst (parsePacket (lit ''2025-01-01T12:00:00.000Z'')
         (sendPacket (lit ''123456789012345'') (lit ''BP01'') [lit ''GT60'', lit ''V1.0'', lit ''1.0''])) =
     Inr \<lparr>imei = lit ''123456789012345'', command = lit ''BP01'',
          commandName = JSString (lit ''Login''),
          data = [lit ''GT60'', lit ''V1.0'', lit ''1.0''],
          checksum = lit ''0724'', calculatedChecksum = lit ''0724'',
          isValid = True, timestamp = lit ''2025-01-01T12:00:00.000Z''\<rparr>"
proof -
  have h: "length (lit ''123456789012345'') = 15" "list_all is_digit (lit ''123456789012345'')"
    "COMMA \<notin> set (lit ''BP01'')"
    "list_all (\<lambda>f. COMMA \<notin> set f) [lit ''GT60'', lit ''V1.0'', lit ''1.0'']"
    by (simp_all add: lit_def is_digit_def COMMA_def)
  have c: "calculateChecksum (join [lit ''123456789012345'', lit ''BP01'', lit ''GT60'', lit ''V1.0'', lit ''1.0'']) = lit ''0724''"
    by (simp add: calculateChecksum_digits upper_hex_digit_def lit_def COMMA_def Let_def)
  have n: "(if truthy (COMMAND_TYPES_get (lit ''BP01'')) then the (COMMAND_TYPES_get (lit ''BP01''))
            else JSString (lit ''Unknown'')) = JSString (lit ''Login'')"
    by (simp add: COMMAND_TYPES_get_def COMMAND_TYPES_def truthy_def lit_def)
  show ?thesis
    using sendPacket_round_trip [OF h, of "lit ''2025-01-01T12:00:00.000Z''"] h
    by (simp only: c n simp_thms)
qed

section \<open>The shape of a packet\<close>

lemma parts_decompose:
  assumes "3 \<le> length xs"
  shows "xs = xs ! 0 # xs ! 1 # take (length xs - 3) (drop 2 xs) @ [xs ! (length xs - 1)]"
proof -
  from assms obtain a b r where xs: "xs = a # b # r" and r: "r \<noteq> []"
    by (cases xs; cases "tl xs"; cases "tl (tl xs)") auto
  from r have "r = butlast r @ [last r]" by simp
  moreover have "take (length r - 1) r = butlast r" by (simp add: butlast_conv_take)
  moreover from r have "(a # b # r) ! (length r + 1) = last r"
    by (simp add: last_conv_nth)
  ultimately show ?thesis
    using r by (simp add: xs)
qed

text \<open>
  C9. For every successfully parsed input, the comma-separated parts are the IMEI, the
  command, the fields and the checksum, in this order: the fields are \<open>parts[2..last-1]\<close>
  and there are three fewer of them than parts.
\<close>

theorem packet_fields_shape:
  assumes "fst (parsePacket now raw) = Inr p"
  shows "packet_parts raw = imei p # command p # data p @ [checksum p] \<and>
         data p = take (length (packet_parts raw) - 3) (drop 2 (packet_parts raw)) \<and>
         length (data p) = length (packet_parts raw) - 3"
proof -
  from assms have len: "3 \<le> length (packet_parts raw)"
    by (simp add: parsePacket_result split: if_splits)
  with assms have p: "imei p = packet_parts raw ! 0" "command p = packet_parts raw ! 1"
      "data p = take (length (packet_parts raw) - 3) (drop 2 (packet_parts raw))"
      "checksum p = packet_parts raw ! (length (packet_parts raw) - 1)"
    by (auto simp: parsePacket_result slice_fields split: if_splits)
  from parts_decompose [OF len] p have "packet_parts raw = imei p # command p # data p @ [checksum p]"
    by simp
  with p(3) len show ?thesis
    by simp
qed

theorem packet_fields_shape_witness:
  "fst (parsePacket (lit ''2025-01-01T12:00:00.000Z'') (lit ''(123456789012345,BP20,5000,200,4.00,0000)'')) =
     Inr \<lparr>imei = lit ''123456789012345'', command = lit ''BP20'',
          commandName = JSString (lit ''Step Count''),
          data = [lit ''5000'', lit ''200'', lit ''4.00''],
          checksum = lit ''0000'', calculatedChecksum = lit ''06C9'',
          isValid = False, timestamp = lit ''2025-01-01T12:00:00.000Z''\<rparr> \<and>
   packet_parts (lit ''(123456789012345,BP20,5000,200,4.00,0000)'') =
     [lit ''123456789012345'', lit ''BP20'', lit ''5000'', lit ''200'', lit ''4.00'', lit ''0000''] \<and>
   length (packet_parts (lit ''(123456789012345,BP20,5000,200,4.00,0000)'')) - 3 = 3"
proof -
  have p: "fst (parsePacket (lit ''2025-01-01T12:00:00.000Z'') (lit ''(123456789012345,BP20,5000,200,4.00,0000)'')) =
     Inr \<lparr>imei = lit ''123456789012345'', command = lit ''BP20'',
          commandName = JSString (lit ''Step Count''),
          data = [lit ''5000'', lit ''200'', lit ''4.00''],
          checksum = lit ''0000'', calculatedChecksum = lit ''06C9'',
          isValid = False, timestamp = lit ''2025-01-01T12:00:00.000Z''\<rparr>"
    by (simp add: parse_eval)
  note s = packet_fields_shape [OF p]
  from s [THEN conjunct1]
  have a: "packet_parts (lit ''(123456789012345,BP20,5000,200,4.00,0000)'') =
     [lit ''123456789012345'', lit ''BP20'', lit ''5000'', lit ''200'', lit ''4.00'', lit ''0000'']"
    by simp
  from s [THEN conjunct2, THEN conjunct2]
  have b: "length (packet_parts (lit ''(123456789012345,BP20,5000,200,4.00,0000)'')) - 3 = 3"
    by simp
  from p a b show ?thesis
    by (intro conjI)
qed

section \<open>White space around the input\<close>

lemma delimited_whitespace_around:
  "list_all is_whitespace w1 \<Longrightarrow> list_all is_whitespace w2 \<Longrightarrow> delimited (w1 @ f @ w2) = delimited f"
  by (simp add: delimited_def trim_whitespace_around)

lemma packet_parts_whitespace_around:
  "list_all is_whitespace w1 \<Longrightarrow> list_all is_whitespace w2 \<Longrightarrow>
     packet_parts (w1 @ f @ w2) = packet_parts f"
  by (simp add: packet_parts_def trim_whitespace_around)

text \<open>
  C10, as the code has it. For every input \<open>f\<close> and all strings \<open>w1\<close>, \<open>w2\<close> of white
  space, \<open>parsePacket\<close> of \<open>w1 + f + w2\<close> gives the result of parsing \<open>f\<close> alone, apart
  from the time and, when parsing fails, from \<open>rawData\<close>, which holds the input as it
  arrived, white space included; the warnings are the same. So a frame that parses
  gives the same packet with or without a trailing newline.
\<close>

theorem parse_whitespace_around:
  assumes "list_all is_whitespace w1" and "list_all is_whitespace w2"
  shows "fst (parsePacket now' (w1 @ f @ w2)) =
      (case fst (parsePacket now f) of
         Inl e \<Rightarrow> Inl (e\<lparr>rawData := w1 @ f @ w2, failure_timestamp := now'\<rparr>)
       | Inr p \<Rightarrow> Inr (p\<lparr>timestamp := now'\<rparr>)) \<and>
    snd (parsePacket now' (w1 @ f @ w2)) = snd (parsePacket now f)"
  unfolding parsePacket_result parsePacket_warnings
    delimited_whitespace_around [OF assms] packet_parts_whitespace_around [OF assms]
    trim_whitespace_around [OF assms]
  by (simp add: caught_def)

theorem parse_whitespace_around_witness:
  "list_all is_whitespace (lit '' '') \<and> list_all is_whitespace [13, 10] \<and>
   fst (parsePacket (lit ''2025-01-01T12:00:01.000Z'') (lit '' '' @ lit ''(123456789012345,BP00,042A)'' @ [13, 10])) =
     Inr \<lparr>imei = lit ''123456789012345'', command = lit ''BP00'',
          commandName = JSString (lit ''Heartbeat''), data = [],
          checksum = lit ''042A'', calculatedChecksum = lit ''042A'',
          isValid = True, timestamp = lit ''2025-01-01T12:00:01.000Z''\<rparr>"
proof -
  have w: "list_all is_whitespace (lit '' '')" "list_all is_whitespace [13, 10]"
    by (simp_all add: lit_def is_whitespace_def)
  have p: "fst (parsePacket (lit ''2025-01-01T12:00:00.000Z'') (lit ''(123456789012345,BP00,042A)'')) =
     Inr \<lparr>imei = lit ''123456789012345'', command = lit ''BP00'',
          commandName = JSString (lit ''Heartbeat''), data = [],
          checksum = lit ''042A'', calculatedChecksum = lit ''042A'',
          isValid = True, timestamp = lit ''2025-01-01T12:00:00.000Z''\<rparr>"
    by (simp add: parse_eval)
  from parse_whitespace_around [OF w, of "lit ''2025-01-01T12:00:01.000Z''"
      "lit ''(123456789012345,BP00,042A)''" "lit ''2025-01-01T12:00:00.000Z''"] w
  show ?thesis
    by (simp add: p)
qed

text \<open>
  The claim as stated fails on an input that does not parse: the frame
  \<open>(12345,BP00,0000)\<close> followed by a newline and the bare frame give two different
  results at the same time of the clock, since \<open>rawData\<close> keeps the newline.
\<close>

theorem parse_keeps_untrimmed_input:
  "list_all is_whitespace [] \<and> list_all is_whitespace [10] \<and>
   fst (parsePacket (lit ''2025-01-01T12:00:00.000Z'') ([] @ lit ''(12345,BP00,0000)'' @ [10])) \<noteq>
   fst (parsePacket (lit ''2025-01-01T12:00:00.000Z'') (lit ''(12345,BP00,0000)''))"
  by (simp add: parse_eval)

section \<open>The acknowledgment\<close>

text \<open>
  C2. For every arrival, the handler writes exactly the string \<open>(imei,BR00,OK)\<close>, with
  the IMEI of the packet, when \<open>parsePacket\<close> returned a packet, and writes nothing when
  it returned an error; the value of \<open>isValid\<close> plays no part.
\<close>

theorem acknowledgment_iff_parsed:
  "written (snd (on_data parser now raw)) =
     (case fst (parsePacket now raw) of
        Inl failure \<Rightarrow> []
      | Inr p \<Rightarrow> [lit ''('' @ imei p @ lit '',BR00,OK)'']) \<and>
   (written (snd (on_data parser now raw)) \<noteq> [] \<longleftrightarrow> (\<exists>p. fst (parsePacket now raw) = Inr p))"
  by (cases "parsePacket now raw"; cases "fst (parsePacket now raw)")
     (simp_all add: on_data_def ackMessage_def)

theorem acknowledgment_iff_parsed_witness:
  "isValid \<lparr>imei = lit ''123456789012345'', command = lit ''BP00'',
          commandName = JSString (lit ''Heartbeat''), data = [],
          checksum = lit ''FFFF'', calculatedChecksum = lit ''042A'',
          isValid = False, timestamp = lit ''2025-01-01T12:00:00.000Z''\<rparr> = False \<and>
   written (snd (on_data new_GT60PacketParser (lit ''2025-01-01T12:00:00.000Z'')
                  (lit ''(123456789012345,BP00,FFFF)''))) = [lit ''(123456789012345,BR00,OK)''] \<and>
   written (snd (on_data new_GT60PacketParser (lit ''2025-01-01T12:00:00.000Z'')
                  (lit ''(123456789012345,BP00)''))) = []"
proof -
  have p: "fst (parsePacket (lit ''2025-01-01T12:00:00.000Z'') (lit ''(123456789012345,BP00,FFFF)'')) =
     Inr \<lparr>imei = lit ''123456789012345'', command = lit ''BP00'',
          commandName = JSString (lit ''Heartbeat''), data = [],
          checksum = lit ''FFFF'', calculatedChecksum = lit ''042A'',
          isValid = False, timestamp = lit ''2025-01-01T12:00:00.000Z''\<rparr>"
    by (simp add: parse_eval)
  have q: "fst (parsePacket (lit ''2025-01-01T12:00:00.000Z'') (lit ''(123456789012345,BP00)'')) =
     Inl (caught InsufficientFields (lit ''(123456789012345,BP00)'') (lit ''2025-01-01T12:00:00.000Z''))"
    by (simp add: parse_eval)
  have "written (snd (on_data new_GT60PacketParser (lit ''2025-01-01T12:00:00.000Z'')
                  (lit ''(123456789012345,BP00,FFFF)''))) =
        [lit ''('' @ lit ''123456789012345'' @ lit '',BR00,OK)'']"
    using acknowledgment_iff_parsed [of new_GT60PacketParser "lit ''2025-01-01T12:00:00.000Z''"
        "lit ''(123456789012345,BP00,FFFF)''"]
    by (simp add: p)
  moreover have "lit ''('' @ lit ''123456789012345'' @ lit '',BR00,OK)'' =
      lit ''(123456789012345,BR00,OK)''"
    by (simp add: lit_def)
  moreover have "written (snd (on_data new_GT60PacketParser (lit ''2025-01-01T12:00:00.000Z'')
                  (lit ''(123456789012345,BP00)''))) = []"
    using acknowledgment_iff_parsed [of new_GT60PacketParser "lit ''2025-01-01T12:00:00.000Z''"
        "lit ''(123456789012345,BP00)''"]
    by (simp add: q)
  ultimately show ?thesis
    by simp
qed

section \<open>Arrivals and frames\<close>

lemma on_data_parser: "fst (on_data parser now raw) = parser"
  by (cases "parsePacket now raw"; cases "fst (parsePacket now raw)") (simp_all add: on_data_def)

lemma on_data_parsed: "parsed (snd (on_data parser now raw)) = fst (parsePacket now raw)"
  by (cases "parsePacket now raw"; cases "fst (parsePacket now raw)") (simp_all add: on_data_def)

lemma on_data_event:
  "on_data parser now raw =
     (parser,
      \<lparr>parsed = fst (parsePacket now raw), warned = snd (parsePacket now raw),
       decoded = (case fst (parsePacket now raw) of
                    Inl failure \<Rightarrow> None
                  | Inr p \<Rightarrow> Some (parseCommandData now (command p) (data p))),
       written = (case fst (parsePacket now raw) of
                    Inl failure \<Rightarrow> []
                  | Inr p \<Rightarrow> [ackMessage p])\<rparr>)"
  by (cases "parsePacket now raw"; cases "fst (parsePacket now raw)") (simp_all add: on_data_def)

text \<open>
  C1, as the code has it. The handler keeps nothing between arrivals and does not look
  for frames inside an arrival: every arrival is given whole to \<open>parsePacket\<close>, once,
  so a connection yields one parse result per arrival, each the result of parsing
  that arrival alone, and the parser (its \<open>buffer\<close> field, empty from the start) is
  unchanged.
\<close>

theorem serve_parses_each_arrival_alone:
  "fst (serve parser arrivals) = parser \<and>
   buffer (fst (serve new_GT60PacketParser arrivals)) = [] \<and>
   length (snd (serve parser arrivals)) = length arrivals \<and>
   map parsed (snd (serve parser arrivals)) = map (\<lambda>(now, raw). fst (parsePacket now raw)) arrivals"
proof -
  have "fst (serve parser arrivals) = parser \<and>
     length (snd (serve parser arrivals)) = length arrivals \<and>
     map parsed (snd (serve parser arrivals)) = map (\<lambda>(now, raw). fst (parsePacket now raw)) arrivals"
    for parser
  proof (induction arrivals arbitrary: parser)
    case Nil
    show ?case by simp
  next
    case (Cons a arrivals)
    obtain now raw where a: "a = (now, raw)" by (cases a)
    obtain ev where ev: "on_data parser now raw = (parser, ev)"
      using on_data_parser [of parser now raw] by (cases "on_data parser now raw") simp
    obtain evs where evs: "serve parser arrivals = (parser, evs)"
      using Cons.IH [of parser] by (cases "serve parser arrivals") simp
    from on_data_parsed [of parser now raw] ev have "parsed ev = fst (parsePacket now raw)"
      by simp
    with Cons.IH [of parser] show ?case
      by (simp add: a ev evs)
  qed
  from this [of parser] this [of new_GT60PacketParser] show ?thesis
    by (simp add: new_GT60PacketParser_def)
qed

theorem serve_parses_each_arrival_alone_witness:
  "length (snd (serve new_GT60PacketParser
      [(lit ''2025-01-01T12:00:00.000Z'', lit ''(123456789''),
       (lit ''2025-01-01T12:00:01.000Z'', lit ''012345,BP00,042A)'')])) = 2 \<and>
   map parsed (snd (serve new_GT60PacketParser
      [(lit ''2025-01-01T12:00:00.000Z'', lit ''(123456789''),
       (lit ''2025-01-01T12:00:01.000Z'', lit ''012345,BP00,042A)'')])) =
     [Inl (caught MissingDelimiters (lit ''(123456789'') (lit ''2025-01-01T12:00:00.000Z'')),
      Inl (caught MissingDelimiters (lit ''012345,BP00,042A)'') (lit ''2025-01-01T12:00:01.000Z''))]"
proof -
  have b: "fst (parsePacket (lit ''2025-01-01T12:00:00.000Z'') (lit ''(123456789'')) =
     Inl (caught MissingDelimiters (lit ''(123456789'') (lit ''2025-01-01T12:00:00.000Z''))"
    by (simp add: parse_eval)
  have c: "fst (parsePacket (lit ''2025-01-01T12:00:01.000Z'') (lit ''012345,BP00,042A)'')) =
     Inl (caught MissingDelimiters (lit ''012345,BP00,042A)'') (lit ''2025-01-01T12:00:01.000Z''))"
    by (simp add: parse_eval)
  show ?thesis
    using serve_parses_each_arrival_alone [of new_GT60PacketParser
      "[(lit ''2025-01-01T12:00:00.000Z'', lit ''(123456789''),
        (lit ''2025-01-01T12:00:01.000Z'', lit ''012345,BP00,042A)'')]"]
    by (simp add: b c)
qed

text \<open>
  The claim as stated fails: an arrival of two concatenated frames yields one packet,
  whose fields run across the boundary of the two frames, not two packets; and a
  frame split over two arrivals yields no packet at all, while the buffer stays empty
  after the first part.
\<close>

theorem serve_does_not_frame:
  "map data (packets_of (snd (serve new_GT60PacketParser
      [(lit ''2025-01-01T12:00:00.000Z'',
        lit ''(123456789012345,BP00,042A)(123456789012345,BP00,042A)'')]))) =
     [[lit ''042A)(123456789012345'', lit ''BP00'']] \<and>
   length (packets_of (snd (serve new_GT60PacketParser
      [(lit ''2025-01-01T12:00:00.000Z'',
        lit ''(123456789012345,BP00,042A)(123456789012345,BP00,042A)'')]))) \<noteq> 2 \<and>
   length (packets_of (snd (serve new_GT60PacketParser
      [(lit ''2025-01-01T12:00:00.000Z'', lit ''(123456789''),
       (lit ''2025-01-01T12:00:01.000Z'', lit ''012345,BP00,042A)'')]))) \<noteq> 1 \<and>
   buffer (fst (serve new_GT60PacketParser
      [(lit ''2025-01-01T12:00:00.000Z'', lit ''(123456789'')])) = []"
proof -
  have a: "fst (parsePacket (lit ''2025-01-01T12:00:00.000Z'')
        (lit ''(123456789012345,BP00,042A)(123456789012345,BP00,042A)'')) =
     Inr \<lparr>imei = lit ''123456789012345'', command = lit ''BP00'',
          commandName = JSString (lit ''Heartbeat''),
          data = [lit ''042A)(123456789012345'', lit ''BP00''],
          checksum = lit ''042A'', calculatedChecksum = lit ''09A8'',
          isValid = False, timestamp = lit ''2025-01-01T12:00:00.000Z''\<rparr>"
    by (simp add: parse_eval)
  have b: "fst (parsePacket (lit ''2025-01-01T12:00:00.000Z'') (lit ''(123456789'')) =
     Inl (caught MissingDelimiters (lit ''(123456789'') (lit ''2025-01-01T12:00:00.000Z''))"
    by (simp add: parse_eval)
  have c: "fst (parsePacket (lit ''2025-01-01T12:00:01.000Z'') (lit ''012345,BP00,042A)'')) =
     Inl (caught MissingDelimiters (lit ''012345,BP00,042A)'') (lit ''2025-01-01T12:00:01.000Z''))"
    by (simp add: parse_eval)
  show ?thesis
    by (simp add: on_data_event a b c new_GT60PacketParser_def)
qed

section \<open>Rounding to binary64\<close>






lemma pow2_nat: "pow2 (int k) = 2 ^ k"
  by (simp add: pow2_def)








section \<open>Coordinates\<close>

lemmas string_eval = lit_def parseFloat_def ToString_def parseFloat_string_def trimStart_def
  parse_sign_def is_whitespace_def startsWith_def is_digit_def DOT_def digits_value_def
  exponent_part_def pow10_def Let_def


lemma substring_take: "substring c 0 i = take (nat i) c"
  by (simp add: substring_def substring_index_def Let_def min_def max_def)

lemma substring_from_drop: "substring_from c i = drop (nat i) c"
  by (simp add: substring_from_def substring_index_def min_def max_def)










lemma parseCoordinate_split:
  "parseCoordinate (Some c) (Some d) =
     (if c = [] \<or> d = [] then js_zero
      else (let k = nat (indexOf c DOT - 2);
                decimal = js_add (parseFloat (Some (take k c)))
                                 (js_div (parseFloat (Some (drop k c))) (Finite False 60))
            in if d = lit ''S'' \<or> d = lit ''W'' then js_neg decimal else decimal))"
  by (simp add: parseCoordinate_def str_falsy_def substring_take substring_from_drop Let_def)





section \<open>Commands outside the table\<close>

text \<open>
  C7 fails on the code for a command that names a property every object inherits.
  The frame \<open>(123456789012345,constructor,07FE)\<close> is well formed and its command is not
  a key of \<open>COMMAND_TYPES\<close>, yet \<open>COMMAND_TYPES[command]\<close> finds the inherited
  \<open>constructor\<close>: the packet's \<open>commandName\<close> is that inherited value, not \<open>Unknown\<close>,
  and no warning is written.
\<close>

theorem inherited_name_is_not_unknown:
  "map_of COMMAND_TYPES (lit ''constructor'') = None \<and>
   fst (parsePacket (lit ''2025-01-01T12:00:00.000Z'') (lit ''(123456789012345,constructor,07FE)'')) =
     Inr \<lparr>imei = lit ''123456789012345'', command = lit ''constructor'',
          commandName = Inherited (lit ''constructor''), data = [],
          checksum = lit ''07FE'', calculatedChecksum = lit ''07FE'',
          isValid = True, timestamp = lit ''2025-01-01T12:00:00.000Z''\<rparr> \<and>
   snd (parsePacket (lit ''2025-01-01T12:00:00.000Z'') (lit ''(123456789012345,constructor,07FE)'')) = []"
  by (simp add: parse_eval)

theorem inherited_name_is_not_unknown_witness:
  "commandName (projr (fst (parsePacket (lit ''2025-01-01T12:00:00.000Z'')
       (lit ''(123456789012345,constructor,07FE)'')))) \<noteq> JSString (lit ''Unknown'')"
  using inherited_name_is_not_unknown by simp

lemma registered_decoders:
  assumes "map_of COMMAND_TYPES cmd = None"
  shows "parseCommandData now cmd d = RawFallback d"
proof -
  have "cmd \<noteq> lit ''BP01''" "cmd \<noteq> lit ''BP02''" "cmd \<noteq> lit ''BP03''" "cmd \<noteq> lit ''BP10''"
    "cmd \<noteq> lit ''BP11''" "cmd \<noteq> lit ''BP20''" "cmd \<noteq> lit ''BP22''"
    using assms by (auto simp: COMMAND_TYPES_def lit_def)
  then show ?thesis
    by (simp add: parseCommandData_def)
qed

text \<open>
  For a command that is neither a key of \<open>COMMAND_TYPES\<close> nor the name of an inherited
  property (every command of four characters that is not in the table, \<open>ZZ99\<close> for
  one), a successfully parsed packet has the name \<open>Unknown\<close>, one warning is
  written, and \<open>parseCommandData\<close> returns the raw fields.
\<close>

theorem unknown_command_fallback:
  assumes "fst (parsePacket now raw) = Inr p"
    and "map_of COMMAND_TYPES (command p) = None"
    and "command p \<notin> set Object_prototype_keys"
  shows "commandName p = JSString (lit ''Unknown'') \<and>
    snd (parsePacket now raw) = [lit ''Unknown command type: '' @ command p] \<and>
    parseCommandData now' (command p) (data p) = RawFallback (data p)"
proof -
  from assms(1) have ok: "delimited raw" "3 \<le> length (packet_parts raw)"
      "imei_test (packet_parts raw ! 0)" and c: "command p = packet_parts raw ! 1"
    by (auto simp: parsePacket_result split: if_splits)
  from assms(2,3) have u: "\<not> truthy (COMMAND_TYPES_get (command p))"
    by (simp add: COMMAND_TYPES_get_def truthy_def)
  from assms(1) u have "commandName p = JSString (lit ''Unknown'')"
    by (auto simp: parsePacket_result c split: if_splits)
  moreover from ok u have "snd (parsePacket now raw) = [lit ''Unknown command type: '' @ command p]"
    by (simp add: parsePacket_warnings c)
  ultimately show ?thesis
    using registered_decoders [OF assms(2)] by simp
qed

theorem unknown_command_fallback_witness:
  "commandName \<lparr>imei = lit ''123456789012345'', command = lit ''ZZ99'',
          commandName = JSString (lit ''Unknown''), data = [lit ''a'', lit ''b''],
          checksum = lit ''0579'', calculatedChecksum = lit ''0579'',
          isValid = True, timestamp = lit ''2025-01-01T12:00:00.000Z''\<rparr> = JSString (lit ''Unknown'') \<and>
   snd (parsePacket (lit ''2025-01-01T12:00:00.000Z'') (lit ''(123456789012345,ZZ99,a,b,0579)'')) =
     [lit ''Unknown command type: '' @ lit ''ZZ99''] \<and>
   parseCommandData (lit ''2025-01-01T12:00:00.000Z'') (lit ''ZZ99'') [lit ''a'', lit ''b''] =
     RawFallback [lit ''a'', lit ''b'']"
proof -
  have p: "fst (parsePacket (lit ''2025-01-01T12:00:00.000Z'') (lit ''(123456789012345,ZZ99,a,b,0579)'')) =
     Inr \<lparr>imei = lit ''123456789012345'', command = lit ''ZZ99'',
          commandName = JSString (lit ''Unknown''), data = [lit ''a'', lit ''b''],
          checksum = lit ''0579'', calculatedChecksum = lit ''0579'',
          isValid = True, timestamp = lit ''2025-01-01T12:00:00.000Z''\<rparr>"
    by (simp add: parse_eval)
  have q: "map_of COMMAND_TYPES (lit ''ZZ99'') = None" "lit ''ZZ99'' \<notin> set Object_prototype_keys"
    by (simp_all add: COMMAND_TYPES_def Object_prototype_keys_def lit_def)
  from unknown_command_fallback [OF p, of "lit ''2025-01-01T12:00:00.000Z''"] q show ?thesis
    by simp
qed

section \<open>Numeric fields\<close>

lemmas parseInt_eval = lit_def parseInt_def ToString_def parseInt_string_def trimStart_def
  parse_sign_def is_whitespace_def startsWith_def is_digit_def is_hex_digit_def Let_def

text \<open>
  C8 fails on the code for the coordinates of a position report: \<open>parseCoordinate\<close> has
  no fallback when \<open>parseFloat\<close> fails on a coordinate that is not empty. With the
  latitude field \<open>abc\<close> the decoded latitude is \<open>NaN\<close>, not 0, while the speed field
  \<open>fast\<close> of the same report falls back to 0.
\<close>

theorem position_coordinate_not_a_number:
  "latitude (parsePositionData
     [lit ''250101120000'', lit ''A'', lit ''abc'', lit ''N'', lit ''12122.7845'', lit ''E'',
      lit ''fast'', lit ''180'', lit ''150'', lit ''12'', lit ''0.8'']) = NaN \<and>
   speed (parsePositionData
     [lit ''250101120000'', lit ''A'', lit ''abc'', lit ''N'', lit ''12122.7845'', lit ''E'',
      lit ''fast'', lit ''180'', lit ''150'', lit ''12'', lit ''0.8'']) = js_zero"
proof -
  have a: "parseCoordinate (Some (lit ''abc'')) (Some (lit ''N'')) = NaN"
    by (simp add: parseCoordinate_split string_eval)
  have b: "num_or (parseFloat (Some (lit ''fast''))) js_zero = js_zero"
    by (simp add: num_or_def string_eval)
  show ?thesis
    by (simp add: parsePositionData_def elem_at_def a b)
qed

theorem position_coordinate_not_a_number_witness:
  "latitude (parsePositionData
     [lit ''250101120000'', lit ''A'', lit ''abc'', lit ''N'', lit ''12122.7845'', lit ''E'',
      lit ''fast'', lit ''180'', lit ''150'', lit ''12'', lit ''0.8'']) \<noteq> js_zero"
  using position_coordinate_not_a_number by (simp add: js_zero_def)

lemma parseFloat_missing: "parseFloat None = NaN" "parseFloat (Some []) = NaN"
  by (simp_all add: string_eval)

lemma parseInt_missing: "parseInt None = NaN" "parseInt (Some []) = NaN"
  by (simp_all add: parseInt_eval)

lemmas parse_missing = parseFloat_missing parseInt_missing

text \<open>
  Every field decoded as \<open>parseInt(...) || 0\<close> or \<open>parseFloat(...) || 0\<close> (the speed,
  course, altitude, satellites and hdop of a position report, and the numeric fields
  of the GPS, LBS, step and heart-rate decoders) is 0 when the parse gives \<open>NaN\<close>, as
  it does for a missing and for an empty field.
\<close>

theorem numeric_fields_fall_back_to_zero:
  "(parseFloat v = NaN \<longrightarrow> num_or (parseFloat v) js_zero = js_zero) \<and>
   (parseInt v = NaN \<longrightarrow> num_or (parseInt v) js_zero = js_zero) \<and>
   parseFloat None = NaN \<and> parseFloat (Some []) = NaN \<and>
   parseInt None = NaN \<and> parseInt (Some []) = NaN \<and>
   parseGPSData d =
     GPSData (num_or (parseInt (elem_at d 0)) js_zero) (num_or (parseInt (elem_at d 1)) js_zero)
       (num_or (parseFloat (elem_at d 2)) js_zero) \<and>
   lbs_signalStrength (parseLBSData d) = num_or (parseInt (elem_at d 4)) js_zero \<and>
   parseStepData d =
     StepData (num_or (parseInt (elem_at d 0)) js_zero) (num_or (parseFloat (elem_at d 1)) js_zero)
       (num_or (parseFloat (elem_at d 2)) js_zero) \<and>
   heartRate (parseHeartRateData now d) = num_or (parseInt (elem_at d 0)) js_zero \<and>
   (10 \<le> length d \<longrightarrow>
      speed (parsePositionData d) = num_or (parseFloat (elem_at d 6)) js_zero \<and>
      course (parsePositionData d) = num_or (parseFloat (elem_at d 7)) js_zero \<and>
      altitude (parsePositionData d) = num_or (parseFloat (elem_at d 8)) js_zero \<and>
      satellites (parsePositionData d) = num_or (parseInt (elem_at d 9)) js_zero \<and>
      hdop (parsePositionData d) = num_or (parseFloat (elem_at d 10)) js_zero)"
  by (simp add: parse_missing num_or_def parseGPSData_def parseLBSData_def parseStepData_def
      parseHeartRateData_def parsePositionData_def)

theorem numeric_fields_fall_back_to_zero_witness:
  "parseInt (Some (lit ''many'')) = NaN \<and>
   parseGPSData [lit ''many''] = GPSData js_zero js_zero js_zero"
proof -
  have a: "parseInt (Some (lit ''many'')) = NaN"
    by (simp add: parseInt_eval)
  have b: "num_or (parseInt (Some (lit ''many''))) js_zero = js_zero"
    using numeric_fields_fall_back_to_zero [of "Some (lit ''many'')" "[lit ''many'']" "[]"] a
    by simp
  have c: "num_or NaN js_zero = js_zero"
    by (simp add: num_or_def)
  have "parseGPSData [lit ''many''] = GPSData js_zero js_zero js_zero"
    using numeric_fields_fall_back_to_zero [of None "[lit ''many'']" "[]"]
    by (simp add: elem_at_def b c parse_missing)
  with a show ?thesis
    by simp
qed

end
